theory Spec2Isabelle
  imports Complex_Main
begin

section \<open>Bowling delivery analysis: the frame enrichment pipeline\<close>

text \<open>
  A shallow embedding of the pure part of \<^verbatim>\<open>src/components/VideoAnalyzer.tsx\<close>:
  \<^verbatim>\<open>mapKeypointsToBallPosition\<close>, \<^verbatim>\<open>computeSeamAngle\<close>, \<^verbatim>\<open>smoothSeries\<close> and
  \<^verbatim>\<open>enrichFrames\<close>.

  JavaScript numbers are modelled as \<^typ>\<open>real\<close>: IEEE rounding, NaN and the infinities are
  outside the model. Array lengths and frame indices are \<^typ>\<open>nat\<close>. A value that may be
  \<^verbatim>\<open>null\<close> or \<^verbatim>\<open>undefined\<close> is an \<^typ>\<open>'a option\<close>. An array read past the end
  yields \<^verbatim>\<open>undefined\<close> in JavaScript; it is modelled by \<open>elem_at\<close>, and where the source
  goes on to read a property of the result (which throws a TypeError) or to store it in a
  field typed \<^verbatim>\<open>number\<close>, the model returns an error value.
\<close>

subsection \<open>JavaScript primitives\<close>

datatype error = TypeError | UndefinedValue

definition elem_at :: "'a list \<Rightarrow> nat \<Rightarrow> 'a option" where
  \<comment> \<open>\<^verbatim>\<open>xs[i]\<close>: \<^verbatim>\<open>undefined\<close> past the end.\<close>
  "elem_at xs i = (if i < length xs then Some (xs ! i) else None)"

definition indexed :: "'a list \<Rightarrow> ('a \<times> nat) list" where
  \<comment> \<open>The (element, index) pairs that \<^verbatim>\<open>map\<close>, \<^verbatim>\<open>forEach\<close> and \<^verbatim>\<open>reduce\<close> pass to a callback.\<close>
  "indexed xs = zip xs [0..<length xs]"

definition js_or :: "real \<Rightarrow> real \<Rightarrow> real" where
  \<comment> \<open>\<^verbatim>\<open>a || d\<close> on a number: \<open>0\<close> is falsy.\<close>
  "js_or a d = (if a = 0 then d else a)"

definition js_or_undef :: "real option \<Rightarrow> real \<Rightarrow> real" where
  \<comment> \<open>\<^verbatim>\<open>a || d\<close> on a number that may be \<^verbatim>\<open>undefined\<close>.\<close>
  "js_or_undef a d = (case a of None \<Rightarrow> d | Some v \<Rightarrow> js_or v d)"

definition nullish :: "'a option \<Rightarrow> 'a \<Rightarrow> 'a" where
  \<comment> \<open>\<^verbatim>\<open>a ?? d\<close>: only \<^verbatim>\<open>null\<close> and \<^verbatim>\<open>undefined\<close> are replaced.\<close>
  "nullish a d = (case a of None \<Rightarrow> d | Some v \<Rightarrow> v)"

definition Math_round :: "real \<Rightarrow> real" where
  \<comment> \<open>\<^verbatim>\<open>Math.round\<close>: the nearest integer, halves towards \<open>+\<infinity>\<close>.\<close>
  "Math_round v = of_int \<lfloor>v + 1 / 2\<rfloor>"

definition Math_floor :: "real \<Rightarrow> nat" where
  \<comment> \<open>\<^verbatim>\<open>Math.floor\<close>, used by the source on non-negative values only, to get an index.\<close>
  "Math_floor v = nat \<lfloor>v\<rfloor>"

definition Math_atan2 :: "real \<Rightarrow> real \<Rightarrow> real" where
  \<comment> \<open>\<^verbatim>\<open>Math.atan2(y, x)\<close> of the language's library, on the reals (no signed zeros).\<close>
  "Math_atan2 dy dx =
     (if 0 < dx then arctan (dy / dx)
      else if dx < 0 \<and> 0 \<le> dy then arctan (dy / dx) + pi
      else if dx < 0 \<and> dy < 0 then arctan (dy / dx) - pi
      else if 0 < dy then pi / 2
      else if dy < 0 then - (pi / 2)
      else 0)"

fun traverse :: "('a \<Rightarrow> error + 'b) \<Rightarrow> 'a list \<Rightarrow> error + 'b list" where
  \<comment> \<open>A \<^verbatim>\<open>map\<close> whose callback may throw: the first error ends it.\<close>
  "traverse f [] = Inr []"
| "traverse f (a # as) =
     (case f a of
        Inl e \<Rightarrow> Inl e
      | Inr b \<Rightarrow> (case traverse f as of Inl e \<Rightarrow> Inl e | Inr bs \<Rightarrow> Inr (b # bs)))"

subsection \<open>Data model\<close>

text \<open>
  \<^verbatim>\<open>Keypoint\<close> comes from the pose-detection library; the source reads its name and its
  coordinates, and treats the coordinates as nullable. The fields carry the prefix
  \<open>kp_\<close> because \<open>x\<close>, \<open>y\<close> and \<open>name\<close> as constants would capture variables.
\<close>

record Keypoint =
  kp_x :: "real option"
  kp_y :: "real option"
  kp_score :: "real option"
  kp_name :: "string option"

datatype FramePhase = RunUp | LoadUp | Release | Pitch | Impact | FollowThrough

type_synonym vec3 = "real \<times> real \<times> real"

definition v0 :: "vec3 \<Rightarrow> real" where "v0 p = fst p"
definition v1 :: "vec3 \<Rightarrow> real" where "v1 p = fst (snd p)"
definition v2 :: "vec3 \<Rightarrow> real" where "v2 p = snd (snd p)"

record FrameSnapshot =
  time :: real
  phase :: FramePhase
  ballPosition :: vec3
  seamAngle :: real
  speedKph :: real
  releaseHeight :: real
  keypoints :: "Keypoint list"

record KeyMoments =
  releaseFrame :: nat
  pitchFrame :: nat
  impactFrame :: nat

record Summary =
  releaseSpeedKph :: real
  seamAngle :: real
  releaseHeight :: real
  predictedImpactMeters :: real
  runupVelocityKph :: real

record AnalysisResult =
  frames :: "FrameSnapshot list"
  trajectory :: "vec3 list"
  keyMoments :: KeyMoments
  summary :: Summary

definition PITCH_LENGTH_METERS :: real where "PITCH_LENGTH_METERS = 20.12"
definition SEAM_SMOOTHING :: real where "SEAM_SMOOTHING = 0.25"

subsection \<open>Kinematic mapper\<close>

definition has_name :: "string \<Rightarrow> Keypoint \<Rightarrow> bool" where
  \<comment> \<open>\<^verbatim>\<open>kp.name === s\<close>\<close>
  "has_name s kp = (kp_name kp = Some s)"

definition select_ball_keypoint :: "Keypoint list \<Rightarrow> Keypoint option" where
  \<comment> \<open>The constant \<^verbatim>\<open>wrist\<close> of \<^verbatim>\<open>mapKeypointsToBallPosition\<close>.\<close>
  "select_ball_keypoint kps =
     (case find (has_name ''right_wrist'') kps of
        Some k \<Rightarrow> Some k
      | None \<Rightarrow>
          (case find (has_name ''left_wrist'') kps of
             Some k \<Rightarrow> Some k
           | None \<Rightarrow> elem_at kps 0))"

definition mapKeypointsToBallPosition :: "real \<Rightarrow> real \<Rightarrow> Keypoint list \<Rightarrow> vec3" where
  "mapKeypointsToBallPosition width height kps =
     (case select_ball_keypoint kps of
        None \<Rightarrow> (0, 1.2, 0)
      | Some wrist \<Rightarrow>
          (let normalizedX = nullish (kp_x wrist) (width / 2) / width - 0.5;
               normalizedY = 1 - nullish (kp_y wrist) (height * 0.6) / height;
               x = normalizedX * 3.6;
               y = max 0.4 (normalizedY * 2.6)
           in (x, y, 0)))"

subsection \<open>Seam estimator\<close>

definition find_wrist :: "Keypoint list \<Rightarrow> Keypoint option" where
  "find_wrist kps =
     (case find (has_name ''right_wrist'') kps of
        Some k \<Rightarrow> Some k
      | None \<Rightarrow> find (has_name ''left_wrist'') kps)"

definition find_elbow :: "Keypoint list \<Rightarrow> Keypoint option" where
  "find_elbow kps =
     (case find (has_name ''right_elbow'') kps of
        Some k \<Rightarrow> Some k
      | None \<Rightarrow> find (has_name ''left_elbow'') kps)"

definition computeSeamAngle :: "Keypoint list \<Rightarrow> real" where
  "computeSeamAngle kps =
     (case (find_wrist kps, find_elbow kps) of
        (Some wrist, Some elbow) \<Rightarrow>
          (if kp_x wrist = None \<or> kp_y wrist = None \<or> kp_x elbow = None \<or> kp_y elbow = None
           then 12
           else
             (let dx = nullish (kp_x wrist) 0 - nullish (kp_x elbow) 0;
                  dy = nullish (kp_y wrist) 0 - nullish (kp_y elbow) 0;
                  angle = Math_atan2 dy dx * 180 / pi
              in Math_round (angle * 10) / 10))
      | _ \<Rightarrow> 12)"

subsection \<open>Frame sampler\<close>

text \<open>
  The record that \<^verbatim>\<open>samplePosesFromVideo\<close> pushes for one sampled instant, from the time, the
  canvas size and the keypoints of the first pose (none when no pose is found). The frames
  it collects are the only argument \<^verbatim>\<open>enrichFrames\<close> is called with.
\<close>

definition sampled_frame :: "real \<Rightarrow> real \<Rightarrow> real \<Rightarrow> Keypoint list \<Rightarrow> FrameSnapshot" where
  "sampled_frame t width height poseKeypoints =
     (let kps = filter (\<lambda>k. nullish (kp_score k) 0 > 0.2) poseKeypoints;
          ballPos = mapKeypointsToBallPosition width height poseKeypoints
      in \<lparr> time = t, phase = RunUp, ballPosition = ballPos,
           FrameSnapshot.seamAngle = computeSeamAngle kps, speedKph = 0,
           FrameSnapshot.releaseHeight = max (v1 ballPos) 1.2, keypoints = kps \<rparr>)"

subsection \<open>Series smoother\<close>

text \<open>
  The \<^verbatim>\<open>forEach\<close> callback pushes one element per call, so at index \<open>idx\<close> the array
  built so far has exactly \<open>idx\<close> elements (\<open>length_smoothSeries\<close> below) and the read of
  \<^verbatim>\<open>output[idx - 1]\<close> is within it. The default \<^verbatim>\<open>factor = 0.35\<close> of the source is
  passed by the caller here.
\<close>

definition smooth_step :: "real \<Rightarrow> real list \<Rightarrow> real \<times> nat \<Rightarrow> real list" where
  \<comment> \<open>The \<^verbatim>\<open>forEach\<close> callback: \<open>output\<close> is the array built so far.\<close>
  "smooth_step factor output = (\<lambda>(v, idx).
     if idx = 0 then output @ [v]
     else output @ [output ! (idx - 1) * (1 - factor) + v * factor])"

definition smoothSeries :: "real list \<Rightarrow> real \<Rightarrow> real list" where
  "smoothSeries series factor = foldl (smooth_step factor) [] (indexed series)"

subsection \<open>Delivery segmenter and telemetry aggregator\<close>

definition fallback :: FrameSnapshot where
  "fallback = \<lparr> time = 0, phase = RunUp, ballPosition = (0, 1.5, 0),
                FrameSnapshot.seamAngle = 15, speedKph = 115,
                FrameSnapshot.releaseHeight = 1.86, keypoints = [] \<rparr>"

definition fallback_result :: AnalysisResult where
  "fallback_result =
     \<lparr> frames = [fallback],
       trajectory = [(0, 1.5, 0)],
       keyMoments = \<lparr> releaseFrame = 0, pitchFrame = 0, impactFrame = 0 \<rparr>,
       summary = \<lparr> releaseSpeedKph = 115, Summary.seamAngle = 15,
                   Summary.releaseHeight = 1.86, predictedImpactMeters = 5.4,
                   runupVelocityKph = 24 \<rparr> \<rparr>"

definition depth_at :: "nat \<Rightarrow> nat \<Rightarrow> real" where
  \<comment> \<open>\<open>n\<close> is \<^verbatim>\<open>frames.length\<close>.\<close>
  "depth_at n idx =
     (let progress = real idx / max (real n - 1) 1
      in progress * PITCH_LENGTH_METERS)"

definition positions_of :: "FrameSnapshot list \<Rightarrow> vec3 list" where
  "positions_of input =
     map (\<lambda>(frame, idx). (v0 (ballPosition frame), v1 (ballPosition frame),
                           depth_at (length input) idx))
         (indexed input)"

definition speed_at :: "FrameSnapshot list \<Rightarrow> vec3 list \<Rightarrow> FrameSnapshot \<times> nat \<Rightarrow> error + real" where
  "speed_at input positions = (\<lambda>(frame, idx).
     if idx = 0 then Inr 0
     else
       (case (elem_at positions (idx - 1), elem_at positions idx, elem_at input idx, elem_at input (idx - 1)) of
          (Some prevPos, Some currPos, Some f, Some fprev) \<Rightarrow>
            (let dt = js_or (time f - time fprev) 0.016;
                 dx = v0 currPos - v0 prevPos;
                 dy = v1 currPos - v1 prevPos;
                 dz = v2 currPos - v2 prevPos;
                 metersPerSec = sqrt (dx * dx + dy * dy + dz * dz) / dt
             in Inr (Math_round (metersPerSec * 3.6)))
        | _ \<Rightarrow> Inl TypeError))"

definition speeds_of :: "FrameSnapshot list \<Rightarrow> vec3 list \<Rightarrow> error + real list" where
  \<comment> \<open>The array \<^verbatim>\<open>speeds\<close>: the instantaneous speeds, before smoothing.\<close>
  "speeds_of input positions = traverse (speed_at input positions) (indexed input)"

definition release_step :: "real list \<Rightarrow> nat \<Rightarrow> real \<times> nat \<Rightarrow> nat" where
  \<comment> \<open>The \<^verbatim>\<open>reduce\<close> callback; a comparison with \<^verbatim>\<open>undefined\<close> is false.\<close>
  "release_step smoothedSpeeds acc = (\<lambda>(speed, idx).
     case elem_at smoothedSpeeds acc of
       Some m \<Rightarrow> if speed > m then idx else acc
     | None \<Rightarrow> acc)"

definition detect_release :: "real list \<Rightarrow> nat" where
  \<comment> \<open>\<^verbatim>\<open>reduce\<close> with an initial value always returns a number, so the trailing
      \<^verbatim>\<open>?? 0\<close> of the source never applies.\<close>
  "detect_release smoothedSpeeds =
     foldl (release_step smoothedSpeeds)
           (Math_floor (real (length smoothedSpeeds) * 0.4))
           (indexed smoothedSpeeds)"

definition phase_at :: "nat \<Rightarrow> nat \<Rightarrow> nat \<Rightarrow> nat \<Rightarrow> FramePhase" where
  \<comment> \<open>The callback that labels frame \<open>idx\<close>; \<open>rel\<close>, \<open>pit\<close> and \<open>imp\<close> are
      \<^verbatim>\<open>releaseFrame\<close>, \<^verbatim>\<open>pitchFrame\<close> and \<^verbatim>\<open>impactFrame\<close>.\<close>
  "phase_at rel pit imp idx =
     (if real idx < real rel * 0.5 then RunUp
      else if idx < rel then LoadUp
      else if idx = rel then Release
      else if idx \<le> pit then Pitch
      else if idx \<le> imp then Impact
      else FollowThrough)"

definition enrich_at ::
  "FrameSnapshot list \<Rightarrow> FramePhase list \<Rightarrow> vec3 list \<Rightarrow> real list \<Rightarrow> real list \<Rightarrow>
   FrameSnapshot \<times> nat \<Rightarrow> error + FrameSnapshot" where
  "enrich_at input phases positions seamAngles smoothedSpeeds = (\<lambda>(frame, idx).
     case elem_at input idx of
       None \<Rightarrow> Inl TypeError
     | Some f \<Rightarrow>
         (case (elem_at phases idx, elem_at positions idx, elem_at seamAngles idx, elem_at smoothedSpeeds idx) of
            (Some ph, Some pos, Some sa, Some sp) \<Rightarrow>
              Inr (frame\<lparr> phase := ph, ballPosition := pos, FrameSnapshot.seamAngle := sa,
                          speedKph := sp, FrameSnapshot.releaseHeight := v1 (ballPosition f) \<rparr>)
          | _ \<Rightarrow> Inl UndefinedValue))"

definition enrichFrames :: "FrameSnapshot list \<Rightarrow> error + AnalysisResult" where
  "enrichFrames input =
     (if length input = 0 then Inr fallback_result
      else
        (let positions = positions_of input in
         case speeds_of input positions of
           Inl e \<Rightarrow> Inl e
         | Inr speeds \<Rightarrow>
             (let smoothedSpeeds = smoothSeries speeds 0.35;
                  seamAngles = smoothSeries (map FrameSnapshot.seamAngle input) SEAM_SMOOTHING;
                  releaseFrame = detect_release smoothedSpeeds;
                  pitchFrame =
                    min (length input - 1)
                        (releaseFrame + Math_floor (real (length input) * 0.25));
                  impactFrame =
                    min (length input - 1)
                        (pitchFrame + Math_floor (real (length input) * 0.2));
                  phases =
                    map (\<lambda>(_, idx). phase_at releaseFrame pitchFrame impactFrame idx)
                        (indexed input)
              in case traverse (enrich_at input phases positions seamAngles smoothedSpeeds)
                        (indexed input) of
                   Inl e \<Rightarrow> Inl e
                 | Inr enrichedFrames \<Rightarrow>
                     (case elem_at positions impactFrame of
                        None \<Rightarrow> Inl TypeError
                      | Some impactPos \<Rightarrow>
                          Inr \<lparr> frames = enrichedFrames,
                                trajectory = positions,
                                keyMoments = \<lparr> releaseFrame = releaseFrame,
                                               pitchFrame = pitchFrame,
                                               impactFrame = impactFrame \<rparr>,
                                summary =
                                  \<lparr> releaseSpeedKph =
                                      js_or_undef (elem_at smoothedSpeeds releaseFrame) 122,
                                    Summary.seamAngle =
                                      js_or_undef (elem_at seamAngles releaseFrame) 14,
                                    Summary.releaseHeight =
                                      nullish (map_option FrameSnapshot.releaseHeight
                                                 (elem_at enrichedFrames releaseFrame)) 1.85,
                                    predictedImpactMeters =
                                      max 0 (PITCH_LENGTH_METERS - v2 impactPos),
                                    runupVelocityKph =
                                      js_or_undef
                                        (elem_at smoothedSpeeds
                                           (Math_floor (real releaseFrame * 0.5))) 22
                                  \<rparr> \<rparr>))))"

subsection \<open>Reading the release frame off a result\<close>

definition detected_release :: "FrameSnapshot list \<Rightarrow> error + nat" where
  \<comment> \<open>\<^verbatim>\<open>enrichFrames(input).keyMoments.releaseFrame\<close>\<close>
  "detected_release input = map_sum id (\<lambda>r. releaseFrame (keyMoments r)) (enrichFrames input)"

subsection \<open>Sample inputs\<close>

text \<open>
  \<open>still_frame t\<close> is a frame at time \<open>t\<close> with the values the sampler computes for a
  wrist at the centre of the picture and no detected elbow: raw ball position
  \<open>[0, 1.3, 0]\<close>, seam angle 12, speed 0 and release height \<open>max(1.3, 1.2)\<close>. The
  keypoint list plays no part in \<^verbatim>\<open>enrichFrames\<close> and is left empty.
\<close>

definition still_frame :: "real \<Rightarrow> FrameSnapshot" where
  "still_frame t = \<lparr> time = t, phase = RunUp, ballPosition = (0, 1.3, 0),
     FrameSnapshot.seamAngle = 12, speedKph = 0, FrameSnapshot.releaseHeight = 1.3,
     keypoints = [] \<rparr>"

text \<open>Ten still frames, a tenth of a second apart.\<close>

definition uniform_frames :: "FrameSnapshot list" where
  "uniform_frames = [still_frame 0, still_frame 0.1, still_frame 0.2, still_frame 0.3,
     still_frame 0.4, still_frame 0.5, still_frame 0.6, still_frame 0.7, still_frame 0.8,
     still_frame 0.9]"

text \<open>Five still frames: the second follows the first after 0.1 s, the others after 10 s each.\<close>

definition burst_frames :: "FrameSnapshot list" where
  "burst_frames = [still_frame 0, still_frame 0.1, still_frame 10, still_frame 20,
     still_frame 30]"

text \<open>A forearm at 45 degrees, and a keypoint set with no name and no coordinate.\<close>

definition arm_keypoints :: "Keypoint list" where
  "arm_keypoints =
     [\<lparr> kp_x = Some 1, kp_y = Some 1, kp_score = Some 0.9, kp_name = Some ''right_wrist'' \<rparr>,
      \<lparr> kp_x = Some 0, kp_y = Some 0, kp_score = Some 0.9, kp_name = Some ''right_elbow'' \<rparr>]"

definition blank_keypoints :: "Keypoint list" where
  "blank_keypoints = [\<lparr> kp_x = None, kp_y = None, kp_score = None, kp_name = None \<rparr>]"

section \<open>Auxiliary facts\<close>

subsection \<open>Indexed traversal\<close>

lemma length_indexed: "length (indexed xs) = length xs"
  by (simp add: indexed_def)

lemma nth_indexed: "i < length xs \<Longrightarrow> indexed xs ! i = (xs ! i, i)"
  by (simp add: indexed_def)

lemma indexed_snoc: "indexed (xs @ [a]) = indexed xs @ [(a, length xs)]"
  by (simp add: indexed_def)

lemma in_set_indexed: "p \<in> set (indexed xs) \<Longrightarrow> snd p < length xs \<and> fst p = xs ! snd p"
  by (auto simp: indexed_def in_set_zip)

lemma indexed_Nil: "indexed [] = []"
  by (simp add: indexed_def)

subsection \<open>The smoother, element by element\<close>

lemma smoothSeries_Nil: "smoothSeries [] a = []"
  by (simp add: smoothSeries_def indexed_Nil)

lemma smoothSeries_snoc:
  "smoothSeries (xs @ [v]) a = smooth_step a (smoothSeries xs a) (v, length xs)"
  by (simp add: smoothSeries_def indexed_snoc)

lemma length_smoothSeries: "length (smoothSeries xs a) = length xs"
  by (induction xs rule: rev_induct)
     (simp_all add: smoothSeries_Nil smoothSeries_snoc smooth_step_def)

lemma smoothSeries_snoc_eq:
  "smoothSeries (xs @ [v]) a =
     smoothSeries xs a @
       [if xs = [] then v else smoothSeries xs a ! (length xs - 1) * (1 - a) + v * a]"
  by (simp add: smoothSeries_snoc smooth_step_def)

lemma smoothSeries_nth_prefix:
  "i < length xs \<Longrightarrow> smoothSeries (xs @ ys) a ! i = smoothSeries xs a ! i"
proof (induction ys rule: rev_induct)
  case Nil
  then show ?case by simp
next
  case (snoc y ys)
  have "smoothSeries ((xs @ ys) @ [y]) a ! i = smoothSeries (xs @ ys) a ! i"
    using snoc.prems
    by (simp only: smoothSeries_snoc_eq) (simp add: nth_append length_smoothSeries)
  with snoc show ?case by simp
qed

lemma smoothSeries_nth_0: "xs \<noteq> [] \<Longrightarrow> smoothSeries xs a ! 0 = xs ! 0"
proof (induction xs rule: rev_induct)
  case Nil
  then show ?case by simp
next
  case (snoc v xs)
  show ?case
  proof (cases "xs = []")
    case True
    then show ?thesis using smoothSeries_snoc_eq [of "[]" v a] by (simp add: smoothSeries_Nil)
  next
    case False
    then have "0 < length xs" by simp
    then have "smoothSeries (xs @ [v]) a ! 0 = smoothSeries xs a ! 0"
      by (rule smoothSeries_nth_prefix)
    with snoc False show ?thesis by (simp add: nth_append)
  qed
qed

lemma smoothSeries_nth_rec:
  "0 < i \<Longrightarrow> i < length xs \<Longrightarrow>
     smoothSeries xs a ! i = smoothSeries xs a ! (i - 1) * (1 - a) + xs ! i * a"
proof (induction xs rule: rev_induct)
  case Nil
  then show ?case by simp
next
  case (snoc v xs)
  show ?case
  proof (cases "i < length xs")
    case True
    then have "i - 1 < length xs" by simp
    with True snoc show ?thesis
      by (simp add: smoothSeries_nth_prefix nth_append)
  next
    case False
    with snoc.prems have i: "i = length xs" by simp
    with snoc.prems have ne: "xs \<noteq> []" by auto
    have "smoothSeries (xs @ [v]) a ! (i - 1) = smoothSeries xs a ! (i - 1)"
      using i ne by (intro smoothSeries_nth_prefix) simp
    then show ?thesis using i ne
      by (simp add: smoothSeries_snoc_eq nth_append length_smoothSeries)
  qed
qed

lemma smoothSeries_one: "smoothSeries xs 1 = xs"
  by (induction xs rule: rev_induct) (simp_all add: smoothSeries_Nil smoothSeries_snoc_eq)

subsection \<open>Release scan and fallible maps\<close>

lemma foldl_invariant:
  "P a \<Longrightarrow> (\<And>b p. P b \<Longrightarrow> p \<in> set ps \<Longrightarrow> P (f b p)) \<Longrightarrow> P (foldl f a ps)"
  by (induction ps arbitrary: a) simp_all

lemma floor_frac_lt: "0 < n \<Longrightarrow> Math_floor (real n * 0.4) < n"
  unfolding Math_floor_def by linarith

lemma detect_release_lt:
  assumes "ss \<noteq> []" shows "detect_release ss < length ss"
  unfolding detect_release_def
proof (rule foldl_invariant)
  show "Math_floor (real (length ss) * 0.4) < length ss"
    using assms by (intro floor_frac_lt) simp
next
  fix b p assume "b < length ss" "p \<in> set (indexed ss)"
  then show "release_step ss b p < length ss"
    by (cases p) (auto simp: release_step_def dest: in_set_indexed split: option.splits)
qed

lemma traverse_total:
  "(\<And>a. a \<in> set as \<Longrightarrow> \<exists>b. f a = Inr b) \<Longrightarrow>
     \<exists>bs. traverse f as = Inr bs \<and> length bs = length as \<and>
          (\<forall>i<length as. f (as ! i) = Inr (bs ! i))"
proof (induction as)
  case Nil
  then show ?case by simp
next
  case (Cons a as)
  from Cons.prems obtain b where b: "f a = Inr b" by auto
  from Cons obtain bs where bs: "traverse f as = Inr bs" "length bs = length as"
      "\<forall>i<length as. f (as ! i) = Inr (bs ! i)" by auto
  show ?case using b bs by (auto simp: nth_Cons split: nat.splits)
qed

subsection \<open>The pipeline on a non-empty input\<close>

lemma elem_at_Some: "i < length xs \<Longrightarrow> elem_at xs i = Some (xs ! i)"
  by (simp add: elem_at_def)

lemma length_positions_of: "length (positions_of input) = length input"
  by (simp add: positions_of_def length_indexed)

lemma nth_positions_of:
  "i < length input \<Longrightarrow>
     positions_of input ! i =
       (v0 (ballPosition (input ! i)), v1 (ballPosition (input ! i)),
        depth_at (length input) i)"
  by (simp add: positions_of_def length_indexed nth_indexed)

lemma speed_at_total:
  assumes "p \<in> set (indexed input)"
  shows "\<exists>b. speed_at input (positions_of input) p = Inr b"
proof -
  from assms have "snd p < length input" by (auto dest: in_set_indexed)
  then show ?thesis
    by (cases p) (simp add: speed_at_def elem_at_Some length_positions_of Let_def)
qed

lemma speeds_of_total:
  "\<exists>sp. speeds_of input (positions_of input) = Inr sp \<and> length sp = length input \<and>
        (\<forall>i<length input. speed_at input (positions_of input) (input ! i, i) = Inr (sp ! i))"
proof -
  obtain sp where sp: "traverse (speed_at input (positions_of input)) (indexed input) = Inr sp"
      "length sp = length (indexed input)"
      "\<forall>i<length (indexed input).
         speed_at input (positions_of input) (indexed input ! i) = Inr (sp ! i)"
    using traverse_total [of "indexed input" "speed_at input (positions_of input)"]
      speed_at_total by blast
  then show ?thesis
    by (auto simp: speeds_of_def length_indexed nth_indexed)
qed

lemma enrich_at_total:
  assumes "p \<in> set (indexed input)"
    and "length phases = length input" and "length positions = length input"
    and "length sa = length input" and "length ss = length input"
  shows "\<exists>b. enrich_at input phases positions sa ss p = Inr b"
proof -
  from assms(1) have "snd p < length input" by (auto dest: in_set_indexed)
  with assms(2-) show ?thesis
    by (cases p) (simp add: enrich_at_def elem_at_Some)
qed

lemma enrich_at_value:
  assumes "i < length input"
    and "length phases = length input" and "length positions = length input"
    and "length sa = length input" and "length ss = length input"
  shows "enrich_at input phases positions sa ss (input ! i, i) =
     Inr ((input ! i)\<lparr> phase := phases ! i, ballPosition := positions ! i,
                        FrameSnapshot.seamAngle := sa ! i, speedKph := ss ! i,
                        FrameSnapshot.releaseHeight := v1 (ballPosition (input ! i)) \<rparr>)"
  using assms by (simp add: enrich_at_def elem_at_Some)

lemma enriched_total:
  assumes "length phases = length input" and "length positions = length input"
    and "length sa = length input" and "length ss = length input"
  shows "\<exists>ef. traverse (enrich_at input phases positions sa ss) (indexed input) = Inr ef \<and>
     length ef = length input \<and>
     (\<forall>i<length input. ef ! i =
        (input ! i)\<lparr> phase := phases ! i, ballPosition := positions ! i,
                       FrameSnapshot.seamAngle := sa ! i, speedKph := ss ! i,
                       FrameSnapshot.releaseHeight := v1 (ballPosition (input ! i)) \<rparr>)"
proof -
  obtain ef where ef: "traverse (enrich_at input phases positions sa ss) (indexed input) = Inr ef"
      "length ef = length (indexed input)"
      "\<forall>i<length (indexed input).
         enrich_at input phases positions sa ss (indexed input ! i) = Inr (ef ! i)"
    using traverse_total [of "indexed input" "enrich_at input phases positions sa ss"]
      enrich_at_total [OF _ assms] by blast
  have "ef ! i = (input ! i)\<lparr> phase := phases ! i, ballPosition := positions ! i,
                       FrameSnapshot.seamAngle := sa ! i, speedKph := ss ! i,
                       FrameSnapshot.releaseHeight := v1 (ballPosition (input ! i)) \<rparr>"
    if "i < length input" for i
  proof -
    have "enrich_at input phases positions sa ss (input ! i, i) = Inr (ef ! i)"
      using ef(3) that by (simp add: length_indexed nth_indexed)
    then show ?thesis
      using enrich_at_value [OF that assms] by simp
  qed
  with ef(1,2) show ?thesis by (simp add: length_indexed)
qed

lemma nth_phases: "i < length input \<Longrightarrow> map (\<lambda>(_, idx). phase_at rel pit imp idx) (indexed input) ! i = phase_at rel pit imp i"
  by (simp add: length_indexed nth_indexed)

lemma enrichFrames_nonempty:
  assumes ne: "input \<noteq> []"
  obtains sp ef ss sa rel pit imp where
    "speeds_of input (positions_of input) = Inr sp"
    "length sp = length input"
    "length ef = length input"
    "ss = smoothSeries sp 0.35"
    "sa = smoothSeries (map FrameSnapshot.seamAngle input) SEAM_SMOOTHING"
    "rel = detect_release ss"
    "pit = min (length input - 1) (rel + Math_floor (real (length input) * 0.25))"
    "imp = min (length input - 1) (pit + Math_floor (real (length input) * 0.2))"
    "rel \<le> pit" "pit \<le> imp" "imp < length input"
    "\<forall>i<length input. ef ! i =
       (input ! i)\<lparr> phase := phase_at rel pit imp i,
                      ballPosition := positions_of input ! i,
                      FrameSnapshot.seamAngle := sa ! i, speedKph := ss ! i,
                      FrameSnapshot.releaseHeight := v1 (ballPosition (input ! i)) \<rparr>"
    "enrichFrames input =
       Inr \<lparr> frames = ef, trajectory = positions_of input,
             keyMoments = \<lparr> releaseFrame = rel, pitchFrame = pit, impactFrame = imp \<rparr>,
             summary =
               \<lparr> releaseSpeedKph = js_or (ss ! rel) 122,
                 Summary.seamAngle = js_or (sa ! rel) 14,
                 Summary.releaseHeight = v1 (ballPosition (input ! rel)),
                 predictedImpactMeters =
                   max 0 (PITCH_LENGTH_METERS - depth_at (length input) imp),
                 runupVelocityKph = js_or (ss ! Math_floor (real rel * 0.5)) 22 \<rparr> \<rparr>"
proof -
  obtain sp where sp: "speeds_of input (positions_of input) = Inr sp" "length sp = length input"
    using speeds_of_total by blast
  define ss where "ss = smoothSeries sp 0.35"
  define sa where "sa = smoothSeries (map FrameSnapshot.seamAngle input) SEAM_SMOOTHING"
  define rel where "rel = detect_release ss"
  define pit where "pit = min (length input - 1) (rel + Math_floor (real (length input) * 0.25))"
  define imp where "imp = min (length input - 1) (pit + Math_floor (real (length input) * 0.2))"
  define phases where "phases = map (\<lambda>(_, idx). phase_at rel pit imp idx) (indexed input)"
  have len: "length ss = length input" "length sa = length input"
      "length phases = length input"
    by (simp_all add: ss_def sa_def phases_def length_smoothSeries sp(2) length_indexed)
  have n: "0 < length input" using ne by simp
  have "ss \<noteq> []" using len(1) n by auto
  then have rel: "rel < length input"
    using detect_release_lt [of ss] len(1) by (simp add: rel_def)
  have order: "rel \<le> pit" "pit \<le> imp" "imp < length input"
    using rel n by (simp_all add: pit_def imp_def)
  have half: "Math_floor (real rel * 0.5) < length input"
  proof -
    have "Math_floor (real rel * 0.5) \<le> rel" unfolding Math_floor_def by linarith
    with rel show ?thesis by simp
  qed
  obtain ef where ef: "traverse (enrich_at input phases (positions_of input) sa ss) (indexed input) = Inr ef"
      "length ef = length input"
      "\<forall>i<length input. ef ! i =
        (input ! i)\<lparr> phase := phases ! i, ballPosition := positions_of input ! i,
                       FrameSnapshot.seamAngle := sa ! i, speedKph := ss ! i,
                       FrameSnapshot.releaseHeight := v1 (ballPosition (input ! i)) \<rparr>"
    using enriched_total [OF len(3) length_positions_of len(2) len(1)] by blast
  have ef': "\<forall>i<length input. ef ! i =
        (input ! i)\<lparr> phase := phase_at rel pit imp i, ballPosition := positions_of input ! i,
                       FrameSnapshot.seamAngle := sa ! i, speedKph := ss ! i,
                       FrameSnapshot.releaseHeight := v1 (ballPosition (input ! i)) \<rparr>"
    using ef(3) by (simp add: phases_def nth_phases)
  have impos: "elem_at (positions_of input) imp = Some (positions_of input ! imp)"
    using order(3) by (simp add: elem_at_Some length_positions_of)
  have v2imp: "v2 (positions_of input ! imp) = depth_at (length input) imp"
    using order(3) by (simp add: nth_positions_of v2_def)
  have rh: "FrameSnapshot.releaseHeight (ef ! rel) = v1 (ballPosition (input ! rel))"
    using ef' rel by simp
  have main: "enrichFrames input =
           Inr \<lparr> frames = ef, trajectory = positions_of input,
                 keyMoments = \<lparr> releaseFrame = rel, pitchFrame = pit, impactFrame = imp \<rparr>,
                 summary =
                   \<lparr> releaseSpeedKph = js_or (ss ! rel) 122,
                     Summary.seamAngle = js_or (sa ! rel) 14,
                     Summary.releaseHeight = v1 (ballPosition (input ! rel)),
                     predictedImpactMeters =
                       max 0 (PITCH_LENGTH_METERS - depth_at (length input) imp),
                     runupVelocityKph = js_or (ss ! Math_floor (real rel * 0.5)) 22 \<rparr> \<rparr>"
    using ne sp(1) ef(1) impos v2imp rh rel half len(1,2) ef(2)
    unfolding enrichFrames_def Let_def phases_def imp_def pit_def rel_def ss_def sa_def
    by (simp add: elem_at_Some js_or_undef_def nullish_def)
  show thesis
    by (rule that [OF sp(1) sp(2) ef(2) ss_def sa_def rel_def pit_def imp_def
          order(1) order(2) order(3) ef' main])
qed

lemma enrichFrames_Nil: "enrichFrames [] = Inr fallback_result"
  by (simp add: enrichFrames_def)


lemma depth_at_mono: "i \<le> j \<Longrightarrow> depth_at n i \<le> depth_at n j"
  unfolding depth_at_def Let_def PITCH_LENGTH_METERS_def
  by (intro mult_right_mono divide_right_mono) simp_all

lemma depth_at_0: "depth_at n 0 = 0"
  by (simp add: depth_at_def)

lemma depth_at_last: "1 < n \<Longrightarrow> depth_at n (n - 1) = 20.12"
  by (simp add: depth_at_def PITCH_LENGTH_METERS_def of_nat_diff)

lemma detected_release_eq:
  assumes "input \<noteq> []" and "speeds_of input (positions_of input) = Inr sp"
  shows "detected_release input = Inr (detect_release (smoothSeries sp 0.35))"
proof -
  from assms(1) obtain sp' ef ss sa rel pit imp where
    "speeds_of input (positions_of input) = Inr sp'"
    "ss = smoothSeries sp' 0.35" "rel = detect_release ss"
    "enrichFrames input =
       Inr \<lparr> frames = ef, trajectory = positions_of input,
             keyMoments = \<lparr> releaseFrame = rel, pitchFrame = pit, impactFrame = imp \<rparr>,
             summary =
               \<lparr> releaseSpeedKph = js_or (ss ! rel) 122,
                 Summary.seamAngle = js_or (sa ! rel) 14,
                 Summary.releaseHeight = v1 (ballPosition (input ! rel)),
                 predictedImpactMeters =
                   max 0 (PITCH_LENGTH_METERS - depth_at (length input) imp),
                 runupVelocityKph = js_or (ss ! Math_floor (real rel * 0.5)) 22 \<rparr> \<rparr>"
    by (rule enrichFrames_nonempty)
  with assms(2) show ?thesis by (simp add: detected_release_def)
qed

text \<open>
  What the pipeline reads of its argument: the result is fixed by the number of frames and,
  frame by frame, the timestamp, the first two components of the position, the seam angle
  and the keypoints.
\<close>

lemma speed_at_cong:
  assumes len: "length a = length b"
    and times: "\<forall>i<length a. time (a ! i) = time (b ! i)"
    and i: "i < length a"
  shows "speed_at a pos (a ! i, i) = speed_at b pos (b ! i, i)"
proof (cases "i = 0")
  case True
  then show ?thesis by (simp add: speed_at_def)
next
  case False
  with i have j: "i - 1 < length a" by simp
  have "elem_at a i = Some (a ! i)" "elem_at b i = Some (b ! i)"
    "elem_at a (i - 1) = Some (a ! (i - 1))" "elem_at b (i - 1) = Some (b ! (i - 1))"
    using i j len by (simp_all add: elem_at_Some)
  moreover have "time (a ! i) = time (b ! i)" "time (a ! (i - 1)) = time (b ! (i - 1))"
    using times i j by blast+
  ultimately show ?thesis
    using False by (simp add: speed_at_def split: option.splits)
qed

lemma enrichFrames_reads:
  assumes len: "length a = length b"
    and same: "\<forall>i<length a.
      time (a ! i) = time (b ! i) \<and>
      v0 (ballPosition (a ! i)) = v0 (ballPosition (b ! i)) \<and>
      v1 (ballPosition (a ! i)) = v1 (ballPosition (b ! i)) \<and>
      FrameSnapshot.seamAngle (a ! i) = FrameSnapshot.seamAngle (b ! i) \<and>
      keypoints (a ! i) = keypoints (b ! i)"
  shows "enrichFrames a = enrichFrames b"
proof (cases "a = []")
  case True
  with len show ?thesis by simp
next
  case False
  with len have neb: "b \<noteq> []" by auto
  have pos: "positions_of a = positions_of b"
  proof (rule nth_equalityI)
    show "length (positions_of a) = length (positions_of b)"
      by (simp add: length_positions_of len)
  next
    fix i assume "i < length (positions_of a)"
    then have i: "i < length a" by (simp add: length_positions_of)
    with same len show "positions_of a ! i = positions_of b ! i"
      by (simp add: nth_positions_of)
  qed
  have seams: "map FrameSnapshot.seamAngle a = map FrameSnapshot.seamAngle b"
    using same len by (intro nth_equalityI) simp_all
  have times: "\<forall>i<length a. time (a ! i) = time (b ! i)"
    using same by blast
  obtain spa where spa: "speeds_of a (positions_of a) = Inr spa" "length spa = length a"
    "\<forall>i<length a. speed_at a (positions_of a) (a ! i, i) = Inr (spa ! i)"
    using speeds_of_total by blast
  obtain spb where spb: "speeds_of b (positions_of b) = Inr spb" "length spb = length b"
    "\<forall>i<length b. speed_at b (positions_of b) (b ! i, i) = Inr (spb ! i)"
    using speeds_of_total by blast
  have sp_eq: "spa = spb"
  proof (rule nth_equalityI)
    show "length spa = length spb" using spa(2) spb(2) len by simp
  next
    fix i assume "i < length spa"
    then have i: "i < length a" using spa(2) by simp
    have "Inr (spa ! i) = speed_at a (positions_of a) (a ! i, i)"
      using spa(3) i by simp
    also have "\<dots> = speed_at b (positions_of a) (b ! i, i)"
      using len times i by (rule speed_at_cong)
    also have "\<dots> = (Inr (spb ! i) :: error + real)"
      using spb(3) i len by (simp add: pos)
    finally show "spa ! i = spb ! i" by simp
  qed
  from False obtain sp ef ss sa rel pit imp where
    A: "speeds_of a (positions_of a) = Inr sp"
      "length ef = length a"
      "ss = smoothSeries sp 0.35"
      "sa = smoothSeries (map FrameSnapshot.seamAngle a) SEAM_SMOOTHING"
      "rel = detect_release ss"
      "pit = min (length a - 1) (rel + Math_floor (real (length a) * 0.25))"
      "imp = min (length a - 1) (pit + Math_floor (real (length a) * 0.2))"
      "rel \<le> pit" "pit \<le> imp" "imp < length a"
      "\<forall>i<length a. ef ! i =
         (a ! i)\<lparr> phase := phase_at rel pit imp i,
                      ballPosition := positions_of a ! i,
                      FrameSnapshot.seamAngle := sa ! i, speedKph := ss ! i,
                      FrameSnapshot.releaseHeight := v1 (ballPosition (a ! i)) \<rparr>"
      "enrichFrames a =
         Inr \<lparr> frames = ef, trajectory = positions_of a,
               keyMoments = \<lparr> releaseFrame = rel, pitchFrame = pit, impactFrame = imp \<rparr>,
               summary =
                 \<lparr> releaseSpeedKph = js_or (ss ! rel) 122,
                   Summary.seamAngle = js_or (sa ! rel) 14,
                   Summary.releaseHeight = v1 (ballPosition (a ! rel)),
                   predictedImpactMeters =
                     max 0 (PITCH_LENGTH_METERS - depth_at (length a) imp),
                   runupVelocityKph = js_or (ss ! Math_floor (real rel * 0.5)) 22 \<rparr> \<rparr>"
    by (rule enrichFrames_nonempty)
  from neb obtain sp' ef' ss' sa' rel' pit' imp' where
    B: "speeds_of b (positions_of b) = Inr sp'"
      "length ef' = length b"
      "ss' = smoothSeries sp' 0.35"
      "sa' = smoothSeries (map FrameSnapshot.seamAngle b) SEAM_SMOOTHING"
      "rel' = detect_release ss'"
      "pit' = min (length b - 1) (rel' + Math_floor (real (length b) * 0.25))"
      "imp' = min (length b - 1) (pit' + Math_floor (real (length b) * 0.2))"
      "rel' \<le> pit'" "pit' \<le> imp'" "imp' < length b"
      "\<forall>i<length b. ef' ! i =
         (b ! i)\<lparr> phase := phase_at rel' pit' imp' i,
                      ballPosition := positions_of b ! i,
                      FrameSnapshot.seamAngle := sa' ! i, speedKph := ss' ! i,
                      FrameSnapshot.releaseHeight := v1 (ballPosition (b ! i)) \<rparr>"
      "enrichFrames b =
         Inr \<lparr> frames = ef', trajectory = positions_of b,
               keyMoments = \<lparr> releaseFrame = rel', pitchFrame = pit', impactFrame = imp' \<rparr>,
               summary =
                 \<lparr> releaseSpeedKph = js_or (ss' ! rel') 122,
                   Summary.seamAngle = js_or (sa' ! rel') 14,
                   Summary.releaseHeight = v1 (ballPosition (b ! rel')),
                   predictedImpactMeters =
                     max 0 (PITCH_LENGTH_METERS - depth_at (length b) imp'),
                   runupVelocityKph = js_or (ss' ! Math_floor (real rel' * 0.5)) 22 \<rparr> \<rparr>"
    by (rule enrichFrames_nonempty)
  have "sp = spa" "sp' = spb" using A(1) B(1) spa(1) spb(1) by simp_all
  then have sp: "sp' = sp" using sp_eq by simp
  have eqs: "ss' = ss" "sa' = sa" "rel' = rel" "pit' = pit" "imp' = imp"
    unfolding A B sp seams len by simp_all
  have rel: "rel < length a" using A(8-10) by simp
  have ef: "ef' = ef"
  proof (rule nth_equalityI)
    show "length ef' = length ef" using A(2) B(2) len by simp
  next
    fix i assume "i < length ef'"
    then have i: "i < length a" using B(2) len by simp
    with same have f: "time (a ! i) = time (b ! i)" "keypoints (a ! i) = keypoints (b ! i)"
      "v1 (ballPosition (a ! i)) = v1 (ballPosition (b ! i))"
      by blast+
    have "ef' ! i = (b ! i)\<lparr> phase := phase_at rel pit imp i,
                      ballPosition := positions_of a ! i,
                      FrameSnapshot.seamAngle := sa ! i, speedKph := ss ! i,
                      FrameSnapshot.releaseHeight := v1 (ballPosition (a ! i)) \<rparr>"
      using B(11) i len by (simp add: eqs pos f)
    also have "\<dots> = (a ! i)\<lparr> phase := phase_at rel pit imp i,
                      ballPosition := positions_of a ! i,
                      FrameSnapshot.seamAngle := sa ! i, speedKph := ss ! i,
                      FrameSnapshot.releaseHeight := v1 (ballPosition (a ! i)) \<rparr>"
      using f(1,2) by (cases "a ! i"; cases "b ! i") simp
    also have "\<dots> = ef ! i" using A(11) i by simp
    finally show "ef' ! i = ef ! i" .
  qed
  have rh: "v1 (ballPosition (b ! rel)) = v1 (ballPosition (a ! rel))"
    using same rel by simp
  show ?thesis
    unfolding A(12) B(12) eqs ef rh pos [symmetric] len [symmetric] ..
qed

subsection \<open>The pipeline on the sample inputs\<close>


lemma indexed5: "indexed [a, b, c, d, e] = [(a, 0), (b, 1), (c, 2), (d, 3), (e, 4)]"
  by (simp add: indexed_def upt_rec)

lemma indexed10: "indexed [a0, a1, a2, a3, a4, a5, a6, a7, a8, a9] =
   [(a0, 0), (a1, 1), (a2, 2), (a3, 3), (a4, 4), (a5, 5), (a6, 6), (a7, 7), (a8, 8), (a9, 9)]"
  by (simp add: indexed_def upt_rec)






lemma sqrt_step5: "sqrt (253009 / 10000) = 503 / 100"
  using real_sqrt_abs2 [of "503 / 100"] by simp

lemma indexed_burst: "indexed burst_frames = [(still_frame 0, 0), (still_frame 0.1, 1), (still_frame 10, 2), (still_frame 20, 3), (still_frame 30, 4)]"
  by (simp add: burst_frames_def indexed_def upt_rec)

lemma positions_burst: "positions_of burst_frames = [(0, 1.3, 0), (0, 1.3, 5.03), (0, 1.3, 10.06), (0, 1.3, 15.09), (0, 1.3, 20.12)]"
  unfolding positions_of_def indexed_burst
  by (simp add: burst_frames_def depth_at_def v0_def v1_def PITCH_LENGTH_METERS_def still_frame_def)

lemma burst_speeds: "speeds_of burst_frames (positions_of burst_frames) = Inr [0, 181, 2, 2, 2]"
  unfolding speeds_of_def indexed_burst positions_burst
  by (simp add: speed_at_def elem_at_def burst_frames_def still_frame_def js_or_def
      Math_round_def v0_def v1_def v2_def sqrt_step5 Let_def)

lemma burst_smooth: "smoothSeries [0, 181, 2, 2, 2] 0.35 = [0, 1267/20, 16751/400, 223363/8000, 3015719 / 160000]"
  by (simp add: smoothSeries_def indexed_def upt_rec smooth_step_def)

lemma burst_release: "detect_release [0, 1267/20, 16751/400, 223363/8000, 3015719 / 160000] = 1"
  unfolding detect_release_def indexed5
  by (simp add: release_step_def elem_at_def Math_floor_def)

lemma burst_nonempty: "burst_frames \<noteq> []"
  by (simp add: burst_frames_def)

lemma length_burst_frames: "length burst_frames = 5"
  by (simp add: burst_frames_def)

lemma burst_release_frame: "detected_release burst_frames = Inr 1"
proof -
  have "detected_release burst_frames = Inr (detect_release (smoothSeries [0, 181, 2, 2, 2] 0.35))"
    using burst_nonempty burst_speeds by (rule detected_release_eq)
  then show ?thesis unfolding burst_smooth burst_release .
qed

lemma burst_seed: "Math_floor (real (length burst_frames) * 0.4) = 2"
  by (simp add: length_burst_frames Math_floor_def)




lemma nat_less_10_cases:
  "i < 10 \<Longrightarrow> i = 0 \<or> i = 1 \<or> i = 2 \<or> i = 3 \<or> i = 4 \<or> i = 5 \<or> i = 6 \<or> i = 7 \<or> i = 8 \<or> i = (9::nat)"
  by presburger

lemma depth_step10: "depth_at 10 (Suc j) - depth_at 10 j = 503 / 225"
  by (simp add: depth_at_def PITCH_LENGTH_METERS_def field_simps)

lemma still_speed_at:
  assumes len: "length input = 10"
    and still: "\<forall>i<10. ballPosition (input ! i) = p \<and> time (input ! i) = real i / 10"
    and j: "Suc j < 10"
  shows "speed_at input (positions_of input) (input ! Suc j, Suc j) = Inr 80"
proof -
  from j have j': "j < 10" by simp
  have cur: "positions_of input ! Suc j = (v0 p, v1 p, depth_at 10 (Suc j))"
    using still j len by (simp add: nth_positions_of)
  have prv: "positions_of input ! j = (v0 p, v1 p, depth_at 10 j)"
    using still j' len by (simp add: nth_positions_of)
  have t: "time (input ! Suc j) = real (Suc j) / 10" "time (input ! j) = real j / 10"
    using still j j' by blast+
  have dt: "time (input ! Suc j) - time (input ! j) = 1 / 10"
    unfolding t by (simp add: field_simps)
  have dist: "sqrt (0 * 0 + 0 * 0 +
      (depth_at 10 (Suc j) - depth_at 10 j) * (depth_at 10 (Suc j) - depth_at 10 j)) =
      503 / 225"
    unfolding depth_step10 using real_sqrt_abs2 [of "503 / 225"] by simp
  have "speed_at input (positions_of input) (input ! Suc j, Suc j) =
      Inr (Math_round (sqrt (0 * 0 + 0 * 0 +
      (depth_at 10 (Suc j) - depth_at 10 j) * (depth_at 10 (Suc j) - depth_at 10 j)) /
         js_or (1 / 10) 0.016 * 3.6))"
    using j len j'
    by (simp add: speed_at_def elem_at_Some length_positions_of cur prv dt Let_def
        v0_def v1_def v2_def)
  then show ?thesis unfolding dist by (simp add: js_or_def Math_round_def)
qed

lemma still_speeds:
  assumes len: "length input = 10"
    and still: "\<forall>i<10. ballPosition (input ! i) = p \<and> time (input ! i) = real i / 10"
  shows "speeds_of input (positions_of input) = Inr [0, 80, 80, 80, 80, 80, 80, 80, 80, 80]"
proof -
  obtain sp where sp: "speeds_of input (positions_of input) = Inr sp" "length sp = length input"
    "\<forall>i<length input. speed_at input (positions_of input) (input ! i, i) = Inr (sp ! i)"
    using speeds_of_total by blast
  have first: "sp ! 0 = 0"
  proof -
    have "speed_at input (positions_of input) (input ! 0, 0) = Inr 0"
      by (simp add: speed_at_def)
    with sp(3) len show ?thesis by simp
  qed
  have later: "sp ! Suc j = 80" if "Suc j < 10" for j
    using still_speed_at [OF len still that] sp(3) len that by simp
  have later': "sp ! i = 80" if "0 < i" "i < 10" for i
    using later [of "i - 1"] that by simp
  have "sp = [0, 80, 80, 80, 80, 80, 80, 80, 80, 80]"
  proof (rule nth_equalityI)
    show "length sp = length [0, 80, 80, 80, 80, 80, 80, 80, 80, 80 :: real]"
      using sp(2) len by simp
  next
    fix i assume "i < length sp"
    then have "i < 10" using sp(2) len by simp
    then have "i = 0 \<or> i = 1 \<or> i = 2 \<or> i = 3 \<or> i = 4 \<or> i = 5 \<or> i = 6 \<or> i = 7 \<or> i = 8 \<or> i = 9"
      by (rule nat_less_10_cases)
    then show "sp ! i = [0, 80, 80, 80, 80, 80, 80, 80, 80, 80] ! i"
      using first later' [of 1] later' [of 2] later' [of 3] later' [of 4] later' [of 5]
        later' [of 6] later' [of 7] later' [of 8] later' [of 9]
      by (elim disjE) simp_all
  qed
  with sp(1) show ?thesis by simp
qed

lemma still_smooth: "smoothSeries [0, 80, 80, 80, 80, 80, 80, 80, 80, 80] 0.35 =
   [0, 28, 231 / 5, 5803 / 100, 131439 / 2000, 2828707 / 40000, 59173191 / 800000,
    1217251483 / 16000000, 24784269279 / 320000000, 501395500627 / 6400000000]"
  unfolding smoothSeries_def indexed10 by (simp add: smooth_step_def)

lemma still_release:
  "detect_release [0, 28, 231 / 5, 5803 / 100, 131439 / 2000, 2828707 / 40000,
     59173191 / 800000, 1217251483 / 16000000, 24784269279 / 320000000,
     501395500627 / 6400000000] = 9"
  unfolding detect_release_def indexed10
  by (simp add: release_step_def elem_at_def Math_floor_def)

lemma still_release_frame:
  assumes len: "length input = 10"
    and still: "\<forall>i<10. ballPosition (input ! i) = p \<and> time (input ! i) = real i / 10"
  shows "detected_release input = Inr 9"
proof -
  from len have "input \<noteq> []" by auto
  then have "detected_release input =
      Inr (detect_release (smoothSeries [0, 80, 80, 80, 80, 80, 80, 80, 80, 80] 0.35))"
    using still_speeds [OF len still] by (rule detected_release_eq)
  then show ?thesis unfolding still_smooth still_release .
qed

lemma uniform_frames_still:
  "\<forall>i<10. ballPosition (uniform_frames ! i) = (0, 1.3, 0) \<and>
       time (uniform_frames ! i) = real i / 10"
proof (intro allI impI)
  fix i :: nat assume "i < 10"
  then have "i = 0 \<or> i = 1 \<or> i = 2 \<or> i = 3 \<or> i = 4 \<or> i = 5 \<or> i = 6 \<or> i = 7 \<or> i = 8 \<or> i = 9"
    by (rule nat_less_10_cases)
  then show "ballPosition (uniform_frames ! i) = (0, 1.3, 0) \<and>
       time (uniform_frames ! i) = real i / 10"
    by (elim disjE) (simp_all add: uniform_frames_def still_frame_def)
qed

lemma length_uniform_frames: "length uniform_frames = 10"
  by (simp add: uniform_frames_def)

subsection \<open>Keypoint selection\<close>

lemma find_wrist_None:
  "find_wrist kps = None \<longleftrightarrow>
     (\<forall>k\<in>set kps. kp_name k \<noteq> Some ''right_wrist'' \<and> kp_name k \<noteq> Some ''left_wrist'')"
proof
  assume "find_wrist kps = None"
  then have "find (has_name ''right_wrist'') kps = None"
    "find (has_name ''left_wrist'') kps = None"
    by (simp_all add: find_wrist_def split: option.splits)
  then show "\<forall>k\<in>set kps. kp_name k \<noteq> Some ''right_wrist'' \<and> kp_name k \<noteq> Some ''left_wrist''"
    by (simp add: find_None_iff has_name_def)
next
  assume "\<forall>k\<in>set kps. kp_name k \<noteq> Some ''right_wrist'' \<and> kp_name k \<noteq> Some ''left_wrist''"
  then have "find (has_name ''right_wrist'') kps = None"
    "find (has_name ''left_wrist'') kps = None"
    by (simp_all add: find_None_iff has_name_def)
  then show "find_wrist kps = None" by (simp add: find_wrist_def)
qed

lemma find_elbow_None:
  "find_elbow kps = None \<longleftrightarrow>
     (\<forall>k\<in>set kps. kp_name k \<noteq> Some ''right_elbow'' \<and> kp_name k \<noteq> Some ''left_elbow'')"
proof
  assume "find_elbow kps = None"
  then have "find (has_name ''right_elbow'') kps = None"
    "find (has_name ''left_elbow'') kps = None"
    by (simp_all add: find_elbow_def split: option.splits)
  then show "\<forall>k\<in>set kps. kp_name k \<noteq> Some ''right_elbow'' \<and> kp_name k \<noteq> Some ''left_elbow''"
    by (simp add: find_None_iff has_name_def)
next
  assume "\<forall>k\<in>set kps. kp_name k \<noteq> Some ''right_elbow'' \<and> kp_name k \<noteq> Some ''left_elbow''"
  then have "find (has_name ''right_elbow'') kps = None"
    "find (has_name ''left_elbow'') kps = None"
    by (simp_all add: find_None_iff has_name_def)
  then show "find_elbow kps = None" by (simp add: find_elbow_def)
qed

lemma computeSeamAngle_default:
  assumes "find_wrist kps = None \<or> find_elbow kps = None \<or>
     (\<exists>w. find_wrist kps = Some w \<and> (kp_x w = None \<or> kp_y w = None)) \<or>
     (\<exists>e. find_elbow kps = Some e \<and> (kp_x e = None \<or> kp_y e = None))"
  shows "computeSeamAngle kps = 12"
  using assms by (auto simp: computeSeamAngle_def split: option.splits)

lemma computeSeamAngle_value:
  assumes "find_wrist kps = Some w" "find_elbow kps = Some e"
    "kp_x w = Some wx" "kp_y w = Some wy" "kp_x e = Some ex" "kp_y e = Some ey"
  shows "computeSeamAngle kps =
     of_int \<lfloor>Math_atan2 (wy - ey) (wx - ex) * 180 / pi * 10 + 1 / 2\<rfloor> / 10"
  using assms by (simp add: computeSeamAngle_def nullish_def Math_round_def Let_def)

lemma find_wrist_arm: "find_wrist arm_keypoints = Some (arm_keypoints ! 0)"
  by (simp add: find_wrist_def arm_keypoints_def has_name_def)

lemma find_elbow_arm: "find_elbow arm_keypoints = Some (arm_keypoints ! 1)"
  by (simp add: find_elbow_def arm_keypoints_def has_name_def)

lemma atan2_diagonal: "Math_atan2 1 1 * 180 / pi = 45"
  by (simp add: Math_atan2_def arctan_one)

lemma select_ball_keypoint_nonempty:
  "kps \<noteq> [] \<Longrightarrow> \<exists>w. select_ball_keypoint kps = Some w"
  by (cases kps) (simp_all add: select_ball_keypoint_def elem_at_def split: option.splits)

lemma mapKeypoints_selected:
  assumes "select_ball_keypoint kps = Some w"
  shows "mapKeypointsToBallPosition width height kps =
       ((nullish (kp_x w) (width / 2) / width - 0.5) * 3.6,
        max 0.4 ((1 - nullish (kp_y w) (height * 0.6) / height) * 2.6), 0)"
  by (simp add: mapKeypointsToBallPosition_def assms Let_def)

lemma mapKeypoints_vertical_floor: "0.4 \<le> v1 (mapKeypointsToBallPosition width height kps)"
proof (cases "select_ball_keypoint kps")
  case None
  then show ?thesis by (simp add: mapKeypointsToBallPosition_def v1_def)
next
  case (Some w)
  show ?thesis unfolding mapKeypoints_selected [OF Some] by (simp add: v1_def)
qed

lemma sampled_frame_vertical: "0.4 \<le> v1 (ballPosition (sampled_frame t width height kps))"
  unfolding sampled_frame_def Let_def using mapKeypoints_vertical_floor [of width height kps]
  by simp

section \<open>Properties\<close>

text \<open>
  C1. Whatever the input frames, \<^verbatim>\<open>enrichFrames\<close> returns a result whose frame list has
  the length of the input (1 for the empty input), whose trajectory is as long as its frame
  list, and whose key moments satisfy
  \<open>0 \<le> releaseFrame \<le> pitchFrame \<le> impactFrame \<le> frames.length - 1\<close>; for the empty
  input the three indices are 0. A single frame is covered: nothing is assumed of the length.
\<close>

theorem enrichFrames_invariant:
  "\<exists>r. enrichFrames input = Inr r \<and>
       length (frames r) = (if input = [] then 1 else length input) \<and>
       length (trajectory r) = length (frames r) \<and>
       releaseFrame (keyMoments r) \<le> pitchFrame (keyMoments r) \<and>
       pitchFrame (keyMoments r) \<le> impactFrame (keyMoments r) \<and>
       impactFrame (keyMoments r) \<le> length (frames r) - 1 \<and>
       impactFrame (keyMoments r) < length (frames r) \<and>
       (input = [] \<longrightarrow> releaseFrame (keyMoments r) = 0 \<and> pitchFrame (keyMoments r) = 0 \<and>
          impactFrame (keyMoments r) = 0)"
proof (cases "input = []")
  case True
  then show ?thesis by (simp add: enrichFrames_Nil fallback_result_def)
next
  case False
  from False obtain sp ef ss sa rel pit imp where
    "length ef = length input" "rel \<le> pit" "pit \<le> imp" "imp < length input"
    "enrichFrames input =
       Inr \<lparr> frames = ef, trajectory = positions_of input,
             keyMoments = \<lparr> releaseFrame = rel, pitchFrame = pit, impactFrame = imp \<rparr>,
             summary =
               \<lparr> releaseSpeedKph = js_or (ss ! rel) 122,
                 Summary.seamAngle = js_or (sa ! rel) 14,
                 Summary.releaseHeight = v1 (ballPosition (input ! rel)),
                 predictedImpactMeters =
                   max 0 (PITCH_LENGTH_METERS - depth_at (length input) imp),
                 runupVelocityKph = js_or (ss ! Math_floor (real rel * 0.5)) 22 \<rparr> \<rparr>"
    by (rule enrichFrames_nonempty)
  with False show ?thesis by (simp add: length_positions_of)
qed

theorem enrichFrames_invariant_witness:
  "(\<exists>r. enrichFrames burst_frames = Inr r \<and>
       length (frames r) = 5 \<and>
       length (trajectory r) = length (frames r) \<and>
       releaseFrame (keyMoments r) \<le> pitchFrame (keyMoments r) \<and>
       pitchFrame (keyMoments r) \<le> impactFrame (keyMoments r) \<and>
       impactFrame (keyMoments r) \<le> length (frames r) - 1) \<and>
   (\<exists>r. enrichFrames [] = Inr r \<and>
       length (frames r) = 1 \<and>
       releaseFrame (keyMoments r) = 0 \<and> pitchFrame (keyMoments r) = 0 \<and>
       impactFrame (keyMoments r) = 0)"
proof
  show "\<exists>r. enrichFrames burst_frames = Inr r \<and>
       length (frames r) = 5 \<and>
       length (trajectory r) = length (frames r) \<and>
       releaseFrame (keyMoments r) \<le> pitchFrame (keyMoments r) \<and>
       pitchFrame (keyMoments r) \<le> impactFrame (keyMoments r) \<and>
       impactFrame (keyMoments r) \<le> length (frames r) - 1"
    using enrichFrames_invariant [of burst_frames] burst_nonempty length_burst_frames
    by auto
  show "\<exists>r. enrichFrames [] = Inr r \<and>
       length (frames r) = 1 \<and>
       releaseFrame (keyMoments r) = 0 \<and> pitchFrame (keyMoments r) = 0 \<and>
       impactFrame (keyMoments r) = 0"
    using enrichFrames_invariant [of "[]"] by auto
qed

text \<open>
  C2. On the empty input \<^verbatim>\<open>enrichFrames\<close> returns exactly the fixed fallback record, and
  on every input it returns a result: no array read of the pipeline goes out of range.
\<close>

theorem enrichFrames_empty:
  "enrichFrames [] =
     Inr \<lparr> frames = [\<lparr> time = 0, phase = RunUp, ballPosition = (0, 1.5, 0),
                         FrameSnapshot.seamAngle = 15, speedKph = 115,
                         FrameSnapshot.releaseHeight = 1.86, keypoints = [] \<rparr>],
           trajectory = [(0, 1.5, 0)],
           keyMoments = \<lparr> releaseFrame = 0, pitchFrame = 0, impactFrame = 0 \<rparr>,
           summary = \<lparr> releaseSpeedKph = 115, Summary.seamAngle = 15,
                       Summary.releaseHeight = 1.86, predictedImpactMeters = 5.4,
                       runupVelocityKph = 24 \<rparr> \<rparr> \<and>
   (\<forall>input. \<exists>r. enrichFrames input = Inr r)"
proof
  show "enrichFrames [] =
     Inr \<lparr> frames = [\<lparr> time = 0, phase = RunUp, ballPosition = (0, 1.5, 0),
                         FrameSnapshot.seamAngle = 15, speedKph = 115,
                         FrameSnapshot.releaseHeight = 1.86, keypoints = [] \<rparr>],
           trajectory = [(0, 1.5, 0)],
           keyMoments = \<lparr> releaseFrame = 0, pitchFrame = 0, impactFrame = 0 \<rparr>,
           summary = \<lparr> releaseSpeedKph = 115, Summary.seamAngle = 15,
                       Summary.releaseHeight = 1.86, predictedImpactMeters = 5.4,
                       runupVelocityKph = 24 \<rparr> \<rparr>"
    by (simp add: enrichFrames_Nil fallback_result_def fallback_def)
  show "\<forall>input. \<exists>r. enrichFrames input = Inr r"
  proof
    fix input
    show "\<exists>r. enrichFrames input = Inr r"
    proof (cases "input = []")
      case True
      then show ?thesis by (simp add: enrichFrames_Nil)
    next
      case False
      then show ?thesis by (rule enrichFrames_nonempty) blast
    qed
  qed
qed

text \<open>
  C3, as stated, fails. For ten frames with one and the same raw ball position and the
  timestamps 0.0, 0.1, ..., 0.9 the statement expects every instantaneous speed to be 0 and
  the release frame to be 4. The speed is taken between positions that already carry the
  assigned depth, which advances by \<open>20.12 / 9\<close> metres per frame, so every speed after the
  first is 80 and the release frame is 9.
\<close>

theorem uniform_frames_counterexample:
  "speeds_of uniform_frames (positions_of uniform_frames) =
     Inr [0, 80, 80, 80, 80, 80, 80, 80, 80, 80] \<and>
   detected_release uniform_frames = Inr 9 \<and>
   detected_release uniform_frames \<noteq> Inr 4"
  using still_speeds [OF length_uniform_frames uniform_frames_still]
    still_release_frame [OF length_uniform_frames uniform_frames_still]
  by simp

text \<open>
  C3, amended. For any ten frames that share one raw ball position and have the timestamps
  \<open>i / 10\<close>, the instantaneous speeds are 0 for frame 0 and 80 for every later frame, and
  the detected release frame is 9.
\<close>

theorem still_delivery:
  assumes "length input = 10"
    and "\<forall>i<10. ballPosition (input ! i) = p \<and> time (input ! i) = real i / 10"
  shows "speeds_of input (positions_of input) = Inr [0, 80, 80, 80, 80, 80, 80, 80, 80, 80] \<and>
         detected_release input = Inr 9"
  using still_speeds [OF assms] still_release_frame [OF assms] by simp

theorem still_delivery_witness:
  "length uniform_frames = 10 \<and>
   ballPosition (uniform_frames ! 0) = (0, 1.3, 0) \<and> time (uniform_frames ! 0) = 0 \<and>
   ballPosition (uniform_frames ! 9) = (0, 1.3, 0) \<and> time (uniform_frames ! 9) = 9 / 10 \<and>
   speeds_of uniform_frames (positions_of uniform_frames) =
     Inr [0, 80, 80, 80, 80, 80, 80, 80, 80, 80] \<and>
   detected_release uniform_frames = Inr 9"
proof -
  have "ballPosition (uniform_frames ! 0) = (0, 1.3, 0)" "time (uniform_frames ! 0) = 0"
    "ballPosition (uniform_frames ! 9) = (0, 1.3, 0)" "time (uniform_frames ! 9) = 9 / 10"
    by (simp_all add: uniform_frames_def still_frame_def)
  with still_delivery [OF length_uniform_frames uniform_frames_still] length_uniform_frames
  show ?thesis by simp
qed



text \<open>
  C5. For a non-empty input of \<open>N\<close> frames the depth of frame \<open>i\<close> in the trajectory (and in
  the enriched frame) is \<open>i / max(N - 1, 1) * 20.12\<close>; it does not decrease with the frame
  index, it is 0 for frame 0, and for \<open>N > 1\<close> it is 20.12 for the last frame.
\<close>

theorem depth_assignment:
  assumes "input \<noteq> []" and "enrichFrames input = Inr r"
  shows "(\<forall>i<length input. v2 (trajectory r ! i) =
            real i / max (real (length input) - 1) 1 * 20.12 \<and>
            v2 (ballPosition (frames r ! i)) = v2 (trajectory r ! i)) \<and>
         (\<forall>i j. i \<le> j \<and> j < length input \<longrightarrow>
            v2 (trajectory r ! i) \<le> v2 (trajectory r ! j)) \<and>
         v2 (trajectory r ! 0) = 0 \<and>
         (1 < length input \<longrightarrow> v2 (trajectory r ! (length input - 1)) = 20.12)"
proof -
  from assms(1) obtain sp ef ss sa rel pit imp where
    ef: "\<forall>i<length input. ef ! i =
       (input ! i)\<lparr> phase := phase_at rel pit imp i,
                      ballPosition := positions_of input ! i,
                      FrameSnapshot.seamAngle := sa ! i, speedKph := ss ! i,
                      FrameSnapshot.releaseHeight := v1 (ballPosition (input ! i)) \<rparr>"
    and res: "enrichFrames input =
       Inr \<lparr> frames = ef, trajectory = positions_of input,
             keyMoments = \<lparr> releaseFrame = rel, pitchFrame = pit, impactFrame = imp \<rparr>,
             summary =
               \<lparr> releaseSpeedKph = js_or (ss ! rel) 122,
                 Summary.seamAngle = js_or (sa ! rel) 14,
                 Summary.releaseHeight = v1 (ballPosition (input ! rel)),
                 predictedImpactMeters =
                   max 0 (PITCH_LENGTH_METERS - depth_at (length input) imp),
                 runupVelocityKph = js_or (ss ! Math_floor (real rel * 0.5)) 22 \<rparr> \<rparr>"
    by (rule enrichFrames_nonempty)
  from res assms(2) have traj: "trajectory r = positions_of input" and fr_eq: "frames r = ef"
    by auto
  have fr: "\<forall>i<length input. ballPosition (frames r ! i) = positions_of input ! i"
    using ef by (simp add: fr_eq)
  have d: "v2 (trajectory r ! i) = depth_at (length input) i" if "i < length input" for i
    using that by (simp add: traj nth_positions_of v2_def)
  have n: "0 < length input" using assms(1) by simp
  have "v2 (trajectory r ! i) \<le> v2 (trajectory r ! j)" if "i \<le> j" "j < length input" for i j
    using that by (simp add: d depth_at_mono)
  moreover have "v2 (trajectory r ! 0) = 0"
    using n by (simp add: d depth_at_0)
  moreover have "v2 (trajectory r ! (length input - 1)) = 20.12" if "1 < length input"
    using that depth_at_last [of "length input"] by (simp add: d)
  moreover have "v2 (trajectory r ! i) = real i / max (real (length input) - 1) 1 * 20.12"
    if "i < length input" for i
    using that by (simp add: d depth_at_def PITCH_LENGTH_METERS_def)
  moreover have "v2 (ballPosition (frames r ! i)) = v2 (trajectory r ! i)"
    if "i < length input" for i
    using that fr traj by simp
  ultimately show ?thesis by blast
qed

theorem depth_assignment_witness:
  "burst_frames \<noteq> [] \<and>
   (\<exists>r. enrichFrames burst_frames = Inr r \<and>
      v2 (trajectory r ! 0) = 0 \<and> v2 (trajectory r ! 1) \<le> v2 (trajectory r ! 3) \<and>
      v2 (trajectory r ! 2) = 10.06 \<and>
      v2 (trajectory r ! 4) = 20.12)"
proof -
  obtain r where r: "enrichFrames burst_frames = Inr r"
    using burst_nonempty by (rule enrichFrames_nonempty) blast
  note inst = depth_assignment [OF burst_nonempty r, unfolded length_burst_frames]
  have "v2 (trajectory r ! 0) = 0" using inst by blast
  moreover have "v2 (trajectory r ! 1) \<le> v2 (trajectory r ! 3)"
  proof -
    have "(1::nat) \<le> 3 \<and> (3::nat) < 5" by simp
    with inst show ?thesis by blast
  qed
  moreover have "v2 (trajectory r ! 2) = 10.06"
  proof -
    have "(2::nat) < 5" by simp
    with inst have "v2 (trajectory r ! 2) = real 2 / max (real 5 - 1) 1 * 20.12" by blast
    then show ?thesis by simp
  qed
  moreover have "v2 (trajectory r ! 4) = 20.12"
  proof -
    have "(1::nat) < 5" by simp
    with inst have "v2 (trajectory r ! (5 - 1)) = 20.12" by blast
    then show ?thesis by simp
  qed
  ultimately show ?thesis using burst_nonempty r by blast
qed

text \<open>
  C6. The series smoother returns its input when the smoothing factor is 1. For any factor
  it returns a sequence of the same length whose first element is the first input, and whose
  element \<open>i > 0\<close> is the previous output times \<open>1 - \<alpha>\<close> plus input \<open>i\<close> times \<open>\<alpha>\<close>;
  the empty sequence gives the empty sequence.
\<close>

theorem smoothSeries_spec:
  "smoothSeries xs 1 = xs \<and>
   length (smoothSeries xs a) = length xs \<and>
   (xs \<noteq> [] \<longrightarrow> smoothSeries xs a ! 0 = xs ! 0) \<and>
   (\<forall>i. 0 < i \<and> i < length xs \<longrightarrow>
        smoothSeries xs a ! i = smoothSeries xs a ! (i - 1) * (1 - a) + xs ! i * a) \<and>
   smoothSeries [] a = []"
  by (simp add: smoothSeries_one length_smoothSeries smoothSeries_nth_0 smoothSeries_nth_rec
      smoothSeries_Nil)

theorem smoothSeries_spec_witness:
  "smoothSeries [10, 20, 40] 1 = [10, 20, 40] \<and>
   [10, 20, 40 :: real] \<noteq> [] \<and> smoothSeries [10, 20, 40] (1 / 2) ! 0 = 10 \<and>
   (0::nat) < 2 \<and> 2 < length [10, 20, 40 :: real] \<and>
   smoothSeries [10, 20, 40] (1 / 2) ! 2 =
     smoothSeries [10, 20, 40] (1 / 2) ! (2 - 1) * (1 - 1 / 2) + [10, 20, 40] ! 2 * (1 / 2)"
proof -
  note spec = smoothSeries_spec [of "[10, 20, 40]" "1 / 2"]
  have one: "smoothSeries [10, 20, 40] 1 = [10, 20, 40]"
    using spec by blast
  have first: "smoothSeries [10, 20, 40] (1 / 2) ! 0 = 10"
    using spec by simp
  have "\<forall>i. 0 < i \<and> i < length [10, 20, 40 :: real] \<longrightarrow>
        smoothSeries [10, 20, 40] (1 / 2) ! i =
          smoothSeries [10, 20, 40] (1 / 2) ! (i - 1) * (1 - 1 / 2) + [10, 20, 40] ! i * (1 / 2)"
    using spec by blast
  then have "(0::nat) < 2 \<and> 2 < length [10, 20, 40 :: real] \<longrightarrow>
        smoothSeries [10, 20, 40] (1 / 2) ! 2 =
          smoothSeries [10, 20, 40] (1 / 2) ! (2 - 1) * (1 - 1 / 2) + [10, 20, 40] ! 2 * (1 / 2)"
    by blast
  with one first show ?thesis by simp
qed

text \<open>
  C7. The seam estimator returns 12 whenever no keypoint is named \<open>right_wrist\<close> or
  \<open>left_wrist\<close>, or none is named \<open>right_elbow\<close> or \<open>left_elbow\<close>, or the selected wrist or
  elbow lacks its x or y coordinate, whatever other keypoints are present. Otherwise both are
  selected with all four coordinates, and the result is
  \<open>atan2(wrist.y - elbow.y, wrist.x - elbow.x)\<close> in degrees, rounded to one decimal place.
\<close>

theorem computeSeamAngle_spec:
  "((\<forall>k\<in>set kps. kp_name k \<noteq> Some ''right_wrist'' \<and> kp_name k \<noteq> Some ''left_wrist'') \<or>
    (\<forall>k\<in>set kps. kp_name k \<noteq> Some ''right_elbow'' \<and> kp_name k \<noteq> Some ''left_elbow'') \<or>
    (\<exists>w. find_wrist kps = Some w \<and> (kp_x w = None \<or> kp_y w = None)) \<or>
    (\<exists>e. find_elbow kps = Some e \<and> (kp_x e = None \<or> kp_y e = None))
    \<longrightarrow> computeSeamAngle kps = 12) \<and>
   (\<not> ((\<forall>k\<in>set kps. kp_name k \<noteq> Some ''right_wrist'' \<and> kp_name k \<noteq> Some ''left_wrist'') \<or>
    (\<forall>k\<in>set kps. kp_name k \<noteq> Some ''right_elbow'' \<and> kp_name k \<noteq> Some ''left_elbow'') \<or>
    (\<exists>w. find_wrist kps = Some w \<and> (kp_x w = None \<or> kp_y w = None)) \<or>
    (\<exists>e. find_elbow kps = Some e \<and> (kp_x e = None \<or> kp_y e = None)))
    \<longrightarrow> (\<exists>w e wx wy ex ey.
          find_wrist kps = Some w \<and> find_elbow kps = Some e \<and>
          kp_x w = Some wx \<and> kp_y w = Some wy \<and> kp_x e = Some ex \<and> kp_y e = Some ey \<and>
          computeSeamAngle kps =
            of_int \<lfloor>Math_atan2 (wy - ey) (wx - ex) * 180 / pi * 10 + 1 / 2\<rfloor> / 10))"
proof (intro conjI impI)
  assume "(\<forall>k\<in>set kps. kp_name k \<noteq> Some ''right_wrist'' \<and> kp_name k \<noteq> Some ''left_wrist'') \<or>
    (\<forall>k\<in>set kps. kp_name k \<noteq> Some ''right_elbow'' \<and> kp_name k \<noteq> Some ''left_elbow'') \<or>
    (\<exists>w. find_wrist kps = Some w \<and> (kp_x w = None \<or> kp_y w = None)) \<or>
    (\<exists>e. find_elbow kps = Some e \<and> (kp_x e = None \<or> kp_y e = None))"
  then show "computeSeamAngle kps = 12"
    unfolding find_wrist_None [symmetric] find_elbow_None [symmetric]
    by (rule computeSeamAngle_default)
next
  assume "\<not> ((\<forall>k\<in>set kps. kp_name k \<noteq> Some ''right_wrist'' \<and> kp_name k \<noteq> Some ''left_wrist'') \<or>
    (\<forall>k\<in>set kps. kp_name k \<noteq> Some ''right_elbow'' \<and> kp_name k \<noteq> Some ''left_elbow'') \<or>
    (\<exists>w. find_wrist kps = Some w \<and> (kp_x w = None \<or> kp_y w = None)) \<or>
    (\<exists>e. find_elbow kps = Some e \<and> (kp_x e = None \<or> kp_y e = None)))"
  then have neg: "\<not> (find_wrist kps = None \<or> find_elbow kps = None \<or>
     (\<exists>w. find_wrist kps = Some w \<and> (kp_x w = None \<or> kp_y w = None)) \<or>
     (\<exists>e. find_elbow kps = Some e \<and> (kp_x e = None \<or> kp_y e = None)))"
    unfolding find_wrist_None [symmetric] find_elbow_None [symmetric] .
  from neg have present: "find_wrist kps \<noteq> None" "find_elbow kps \<noteq> None"
    by simp_all
  from neg have coords:
    "\<forall>w. find_wrist kps = Some w \<longrightarrow> kp_x w \<noteq> None \<and> kp_y w \<noteq> None"
    "\<forall>e. find_elbow kps = Some e \<longrightarrow> kp_x e \<noteq> None \<and> kp_y e \<noteq> None"
    by simp_all
  from present obtain w e where we: "find_wrist kps = Some w" "find_elbow kps = Some e"
    by auto
  with coords obtain wx wy ex ey where
    c: "kp_x w = Some wx" "kp_y w = Some wy" "kp_x e = Some ex" "kp_y e = Some ey"
    by auto
  from computeSeamAngle_value [OF we c] we c
  show "\<exists>w e wx wy ex ey.
          find_wrist kps = Some w \<and> find_elbow kps = Some e \<and>
          kp_x w = Some wx \<and> kp_y w = Some wy \<and> kp_x e = Some ex \<and> kp_y e = Some ey \<and>
          computeSeamAngle kps =
            of_int \<lfloor>Math_atan2 (wy - ey) (wx - ex) * 180 / pi * 10 + 1 / 2\<rfloor> / 10"
    by blast
qed

theorem computeSeamAngle_spec_witness:
  "computeSeamAngle blank_keypoints = 12 \<and> computeSeamAngle arm_keypoints = 45"
proof
  have "\<forall>k\<in>set blank_keypoints.
      kp_name k \<noteq> Some ''right_wrist'' \<and> kp_name k \<noteq> Some ''left_wrist''"
    by (simp add: blank_keypoints_def)
  with computeSeamAngle_spec [of blank_keypoints]
  show "computeSeamAngle blank_keypoints = 12" by blast
next
  have "\<not> ((\<forall>k\<in>set arm_keypoints.
           kp_name k \<noteq> Some ''right_wrist'' \<and> kp_name k \<noteq> Some ''left_wrist'') \<or>
    (\<forall>k\<in>set arm_keypoints.
           kp_name k \<noteq> Some ''right_elbow'' \<and> kp_name k \<noteq> Some ''left_elbow'') \<or>
    (\<exists>w. find_wrist arm_keypoints = Some w \<and> (kp_x w = None \<or> kp_y w = None)) \<or>
    (\<exists>e. find_elbow arm_keypoints = Some e \<and> (kp_x e = None \<or> kp_y e = None)))"
    unfolding find_wrist_arm find_elbow_arm by (simp add: arm_keypoints_def)
  with computeSeamAngle_spec [of arm_keypoints]
  obtain w e wx wy ex ey where
    "find_wrist arm_keypoints = Some w" "find_elbow arm_keypoints = Some e"
    "kp_x w = Some wx" "kp_y w = Some wy" "kp_x e = Some ex" "kp_y e = Some ey"
    "computeSeamAngle arm_keypoints =
       of_int \<lfloor>Math_atan2 (wy - ey) (wx - ex) * 180 / pi * 10 + 1 / 2\<rfloor> / 10"
    by blast
  then have "computeSeamAngle arm_keypoints =
       of_int \<lfloor>Math_atan2 (1 - 0) (1 - 0) * 180 / pi * 10 + 1 / 2\<rfloor> / 10"
    unfolding find_wrist_arm find_elbow_arm by (auto simp: arm_keypoints_def)
  then show "computeSeamAngle arm_keypoints = 45"
    by (simp add: atan2_diagonal)
qed

text \<open>
  C9. For a picture of positive width and height and a non-empty keypoint set, the
  kinematic mapper selects a keypoint; a missing x is replaced by \<open>width / 2\<close>, which gives
  lateral 0, and a missing y by \<open>0.6 * height\<close>, which gives vertical
  \<open>max(0.4, 0.4 * 2.6) = 1.04\<close>. The result always has vertical at least 0.4 and depth 0.
\<close>

theorem mapKeypoints_missing_coordinates:
  assumes "0 < width" and "0 < height" and "kps \<noteq> []"
  shows "\<exists>w. select_ball_keypoint kps = Some w \<and>
     mapKeypointsToBallPosition width height kps =
       ((nullish (kp_x w) (width / 2) / width - 0.5) * 3.6,
        max 0.4 ((1 - nullish (kp_y w) (height * 0.6) / height) * 2.6), 0) \<and>
     (kp_x w = None \<longrightarrow> v0 (mapKeypointsToBallPosition width height kps) = 0) \<and>
     (kp_y w = None \<longrightarrow> v1 (mapKeypointsToBallPosition width height kps) = 1.04) \<and>
     0.4 \<le> v1 (mapKeypointsToBallPosition width height kps) \<and>
     v2 (mapKeypointsToBallPosition width height kps) = 0"
proof -
  from assms(3) obtain w where w: "select_ball_keypoint kps = Some w"
    using select_ball_keypoint_nonempty by blast
  note val = mapKeypoints_selected [OF w, of width height]
  show ?thesis
  proof (intro exI [of _ w] conjI impI)
    show "select_ball_keypoint kps = Some w" by (rule w)
    show "mapKeypointsToBallPosition width height kps =
       ((nullish (kp_x w) (width / 2) / width - 0.5) * 3.6,
        max 0.4 ((1 - nullish (kp_y w) (height * 0.6) / height) * 2.6), 0)"
      by (rule val)
    show "v0 (mapKeypointsToBallPosition width height kps) = 0" if "kp_x w = None"
      unfolding val using that assms(1) by (simp add: v0_def nullish_def)
    show "v1 (mapKeypointsToBallPosition width height kps) = 1.04" if "kp_y w = None"
      unfolding val using that assms(2) by (simp add: v1_def nullish_def)
    show "0.4 \<le> v1 (mapKeypointsToBallPosition width height kps)"
      unfolding val by (simp add: v1_def)
    show "v2 (mapKeypointsToBallPosition width height kps) = 0"
      unfolding val by (simp add: v2_def)
  qed
qed

theorem mapKeypoints_missing_coordinates_witness:
  "(0::real) < 1280 \<and> (0::real) < 720 \<and> blank_keypoints \<noteq> [] \<and>
   select_ball_keypoint blank_keypoints = Some (blank_keypoints ! 0) \<and>
   kp_x (blank_keypoints ! 0) = None \<and> kp_y (blank_keypoints ! 0) = None \<and>
   mapKeypointsToBallPosition 1280 720 blank_keypoints = (0, 1.04, 0)"
proof -
  have h: "(0::real) < 1280" "(0::real) < 720" "blank_keypoints \<noteq> []"
    by (simp_all add: blank_keypoints_def)
  have sel: "select_ball_keypoint blank_keypoints = Some (blank_keypoints ! 0)"
    by (simp add: select_ball_keypoint_def blank_keypoints_def has_name_def elem_at_def)
  have none: "kp_x (blank_keypoints ! 0) = None" "kp_y (blank_keypoints ! 0) = None"
    by (simp_all add: blank_keypoints_def)
  from mapKeypoints_missing_coordinates [OF h] obtain w where
    w: "select_ball_keypoint blank_keypoints = Some w"
    and x: "kp_x w = None \<longrightarrow> v0 (mapKeypointsToBallPosition 1280 720 blank_keypoints) = 0"
    and y: "kp_y w = None \<longrightarrow> v1 (mapKeypointsToBallPosition 1280 720 blank_keypoints) = 1.04"
    and z: "v2 (mapKeypointsToBallPosition 1280 720 blank_keypoints) = 0"
    by (elim exE conjE) (rule that, assumption+)
  from w sel have "w = blank_keypoints ! 0" by simp
  with x y z none
  have "v0 (mapKeypointsToBallPosition 1280 720 blank_keypoints) = 0"
    "v1 (mapKeypointsToBallPosition 1280 720 blank_keypoints) = 1.04"
    "v2 (mapKeypointsToBallPosition 1280 720 blank_keypoints) = 0"
    by simp_all
  then have "mapKeypointsToBallPosition 1280 720 blank_keypoints = (0, 1.04, 0)"
    by (cases "mapKeypointsToBallPosition 1280 720 blank_keypoints")
       (simp add: v0_def v1_def v2_def)
  with h sel none show ?thesis by simp
qed

text \<open>
  C10. The release scan folds over every index of the smoothed speeds from index 0, and
  \<open>floor(N * 0.4)\<close> is only the seed of the running maximum index: on \<open>burst_frames\<close> the seed
  is 2 and the detected release frame is 1, so the seed is not a lower bound.
\<close>

theorem release_before_seed:
  "detect_release ss =
     foldl (release_step ss) (Math_floor (real (length ss) * 0.4)) (indexed ss) \<and>
   Math_floor (real (length burst_frames) * 0.4) = 2 \<and>
   detected_release burst_frames = Inr 1 \<and>
   (\<exists>input r. enrichFrames input = Inr r \<and>
      releaseFrame (keyMoments r) < Math_floor (real (length input) * 0.4))"
proof -
  from burst_release_frame obtain r where
    r: "enrichFrames burst_frames = Inr r" "releaseFrame (keyMoments r) = 1"
    by (cases "enrichFrames burst_frames") (auto simp: detected_release_def)
  then have "releaseFrame (keyMoments r) < Math_floor (real (length burst_frames) * 0.4)"
    unfolding burst_seed by simp
  with r(1) have "\<exists>input r. enrichFrames input = Inr r \<and>
      releaseFrame (keyMoments r) < Math_floor (real (length input) * 0.4)"
    by blast
  with burst_seed burst_release_frame show ?thesis
    unfolding detect_release_def by blast
qed

end
